theory Spec2Isabelle
  imports Main
begin

section \<open>Penney's Game: the functions of processing.py\<close>

subsection \<open>The scan loop of \<open>score_deck\<close>\<close>

text \<open>
  The local variables of \<open>score_deck\<close>. Python's integers are unbounded, so the counters
  are \<open>int\<close>. The cursor \<open>i\<close> (field \<open>idx\<close>) starts at 0 and is only ever increased, so it
  is a \<open>nat\<close>; the loop test compares it as an integer, because \<open>len(deck) - 2\<close> is negative
  for a deck of fewer than two cards.
\<close>

record scan =
  idx :: nat
  pile :: int
  p1_cards :: int
  p2_cards :: int
  p1_tricks :: int
  p2_tricks :: int

text \<open>Lines 25 to 32: the initial values.\<close>

definition scan_init :: scan where
  "scan_init = \<lparr>idx = 0, pile = 2, p1_cards = 0, p2_cards = 0, p1_tricks = 0, p2_tricks = 0\<rparr>"

text \<open>Line 33: \<open>while i < len(deck) - 2\<close>.\<close>

definition scan_cond :: "string \<Rightarrow> scan \<Rightarrow> bool" where
  "scan_cond deck s \<longleftrightarrow> int (idx s) < int (length deck) - 2"

text \<open>
  Lines 34 to 49: one pass through the loop body. The slice \<open>deck[i:i+3]\<close> is
  \<open>take 3 (drop i deck)\<close>: a slice never raises, it is cut at the end of the string.
\<close>

definition scan_body :: "string \<Rightarrow> string \<Rightarrow> string \<Rightarrow> scan \<Rightarrow> scan" where
  "scan_body deck seq1 seq2 s =
     (let pile' = pile s + 1;
          current_sequence = take 3 (drop (idx s) deck)
      in if current_sequence = seq1 then
           s\<lparr>p1_cards := p1_cards s + pile', pile := 2,
             p1_tricks := p1_tricks s + 1, idx := idx s + 3\<rparr>
         else if current_sequence = seq2 then
           s\<lparr>p2_cards := p2_cards s + pile', pile := 2,
             p2_tricks := p2_tricks s + 1, idx := idx s + 3\<rparr>
         else s\<lparr>pile := pile', idx := idx s + 1\<rparr>)"

text \<open>The \<open>while\<close> loop, from any state of its variables.\<close>

function score_loop :: "string \<Rightarrow> string \<Rightarrow> string \<Rightarrow> scan \<Rightarrow> scan" where
  "score_loop deck seq1 seq2 s =
     (if scan_cond deck s then score_loop deck seq1 seq2 (scan_body deck seq1 seq2 s) else s)"
  by pat_completeness auto
termination
  by (relation "measure (\<lambda>(deck, seq1, seq2, s). length deck - idx s)")
     (auto simp: scan_cond_def scan_body_def Let_def)

declare score_loop.simps [simp del]

text \<open>Line 51: the tuple that is returned.\<close>

definition outputs :: "scan \<Rightarrow> int \<times> int \<times> int \<times> int" where
  "outputs s = (p1_cards s, p2_cards s, p1_tricks s, p2_tricks s)"

definition score_deck :: "string \<Rightarrow> string \<Rightarrow> string \<Rightarrow> int \<times> int \<times> int \<times> int" where
  "score_deck deck seq1 seq2 = outputs (score_loop deck seq1 seq2 scan_init)"

text \<open>
  The same loop with no termination argument built in: not returning is the value
  \<open>None\<close>. It is used to state that the loop returns.
\<close>

partial_function (option) score_loop_opt :: "string \<Rightarrow> string \<Rightarrow> string \<Rightarrow> scan \<Rightarrow> scan option" where
  "score_loop_opt deck seq1 seq2 s =
     (if scan_cond deck s then score_loop_opt deck seq1 seq2 (scan_body deck seq1 seq2 s)
      else Some s)"

definition score_deck_opt :: "string \<Rightarrow> string \<Rightarrow> string \<Rightarrow> (int \<times> int \<times> int \<times> int) option" where
  "score_deck_opt deck seq1 seq2 = map_option outputs (score_loop_opt deck seq1 seq2 scan_init)"

subsection \<open>\<open>calculate_winner\<close>\<close>

text \<open>
  Lines 76 to 91. The four flags start at 0; each metric has its own \<open>if\<close>/\<open>elif\<close>, with
  no \<open>else\<close>.
\<close>

definition calculate_winner :: "int \<Rightarrow> int \<Rightarrow> int \<Rightarrow> int \<Rightarrow> int \<times> int \<times> int \<times> int" where
  "calculate_winner p1c p2c p1t p2t =
     (let (cards_winner, cards_draw) =
            (if p1c < p2c then (1, 0) else if p1c = p2c then (0, 1) else (0, 0));
          (tricks_winner, tricks_draw) =
            (if p1t < p2t then (1, 0) else if p1t = p2t then (0, 1) else (0, 0))
      in (cards_winner, cards_draw, tricks_winner, tricks_draw))"

subsection \<open>\<open>play_one_deck\<close>\<close>

text \<open>
  The exceptions that \<open>play_one_deck\<close> can raise: \<open>ValueError\<close> from line 125, \<open>KeyError\<close>
  from \<open>loc\<close>, and \<open>OSError\<close> (with its subclasses such as \<open>FileNotFoundError\<close>) from
  \<open>np.save\<close>.
\<close>

datatype py_error = ValueError | KeyError | OSError

text \<open>Sequencing: a raised exception ends the function, a value goes on.\<close>

fun raise_or :: "py_error + 'a \<Rightarrow> ('a \<Rightarrow> py_error + 'b) \<Rightarrow> py_error + 'b" where
  "raise_or (Inl e) f = Inl e"
| "raise_or (Inr x) f = f x"

text \<open>
  A pandas \<open>DataFrame\<close> as far as \<open>play_one_deck\<close> uses one: the row labels in order, the
  column labels in order, and the cells by label. A cell that was never written is
  \<open>NaN\<close>, here \<open>None\<close>.
\<close>

record dataframe =
  index :: "string list"
  columns :: "string list"
  cells :: "string \<times> string \<Rightarrow> int option"

text \<open>Lines 111 to 114: \<open>pd.DataFrame(columns=..., index=...)\<close>, every cell empty.\<close>

definition DataFrame :: "string list \<Rightarrow> string list \<Rightarrow> dataframe" where
  "DataFrame cols rows = \<lparr>index = rows, columns = cols, cells = (\<lambda>_. None)\<rparr>"

text \<open>
  Lines 120 to 123: \<open>df.at[r, c] = v\<close>. A label that the frame does not have yet is
  appended to the axis (pandas enlarges the frame).
\<close>

definition at_set :: "dataframe \<Rightarrow> string \<Rightarrow> string \<Rightarrow> int \<Rightarrow> dataframe" where
  "at_set df r c v =
     df\<lparr>index := (if r \<in> set (index df) then index df else index df @ [r]),
        columns := (if c \<in> set (columns df) then columns df else columns df @ [c]),
        cells := (cells df)((r, c) := Some v)\<rparr>"

text \<open>
  Lines 129 to 132: \<open>df.loc[rows, :]\<close>, the rows in the order asked for. A label that
  the frame does not have raises \<open>KeyError\<close>.
\<close>

definition loc_rows :: "dataframe \<Rightarrow> string list \<Rightarrow> py_error + dataframe" where
  "loc_rows df rows =
     (if set rows \<subseteq> set (index df) then Inr (df\<lparr>index := rows\<rparr>) else Inl KeyError)"

text \<open>The two-dimensional array that \<open>np.save\<close> writes for a frame: row by row.\<close>

definition to_array :: "dataframe \<Rightarrow> int option list list" where
  "to_array df = map (\<lambda>r. map (\<lambda>c. cells df (r, c)) (columns df)) (index df)"

text \<open>Line 109.\<close>

definition sequences :: "string list" where
  "sequences = [''000'', ''001'', ''010'', ''011'', ''100'', ''101'', ''110'', ''111'']"

text \<open>The four frames, in the order in which \<open>play_one_deck\<close> returns them.\<close>

record results =
  p2_wins_cards :: dataframe
  p2_wins_tricks :: dataframe
  draws_cards :: dataframe
  draws_tricks :: dataframe

text \<open>Lines 117 and 118: the deck is scored for one pair and the winner is calculated.\<close>

definition outcome :: "string \<Rightarrow> string \<Rightarrow> string \<Rightarrow> int \<times> int \<times> int \<times> int" where
  "outcome deck seq1 seq2 =
     (case score_deck deck seq1 seq2 of
        (p1c, p2c, p1t, p2t) \<Rightarrow> calculate_winner p1c p2c p1t p2t)"

text \<open>Lines 117 to 123: the body of the \<open>for\<close> loop over the pairs.\<close>

definition play_pair :: "string \<Rightarrow> results \<Rightarrow> string \<times> string \<Rightarrow> results" where
  "play_pair deck res pair =
     (case pair of (seq1, seq2) \<Rightarrow>
      (case outcome deck seq1 seq2 of (cards_winner, cards_draw, tricks_winner, tricks_draw) \<Rightarrow>
          \<lparr>p2_wins_cards = at_set (p2_wins_cards res) seq1 seq2 cards_winner,
           p2_wins_tricks = at_set (p2_wins_tricks res) seq1 seq2 tricks_winner,
           draws_cards = at_set (draws_cards res) seq1 seq2 cards_draw,
           draws_tricks = at_set (draws_tricks res) seq1 seq2 tricks_draw\<rparr>))"

text \<open>
  Python strings are modelled as strings of 8-bit characters, a character standing for
  the code point of the same number. The characters that \<open>int\<close> skips around a number
  are tab, line feed, vertical tab, form feed, carriage return, space, next line (85
  hexadecimal) and no-break space (A0 hexadecimal).
\<close>

definition py_space :: "char \<Rightarrow> bool" where
  "py_space c \<longleftrightarrow>
     c \<in> set [CHR 0x09, CHR 0x0A, CHR 0x0B, CHR 0x0C, CHR 0x0D, CHR 0x20, CHR 0x85, CHR 0xA0]"

text \<open>
  The digits of a base 2 literal, read from the left: the longest run of \<open>0\<close>, \<open>1\<close> and
  \<open>_\<close>. Two underscores in a row, or an underscore at the end of the run, are refused
  (\<open>None\<close>). The result is the value and the rest of the string.
\<close>

fun bin_digits :: "int \<Rightarrow> bool \<Rightarrow> string \<Rightarrow> (int \<times> string) option" where
  "bin_digits acc after_underscore [] = (if after_underscore then None else Some (acc, []))"
| "bin_digits acc after_underscore (c # cs) =
     (if c = CHR ''0'' then bin_digits (2 * acc) False cs
      else if c = CHR ''1'' then bin_digits (2 * acc + 1) False cs
      else if c = CHR ''_'' then (if after_underscore then None else bin_digits acc True cs)
      else if after_underscore then None
      else Some (acc, c # cs))"

text \<open>
  Line 125: \<open>int(deck, 2)\<close>. Leading blanks, an optional sign, an optional prefix \<open>0b\<close>
  or \<open>0B\<close> (after which one underscore may stand), the digits, which start with a digit,
  and trailing blanks. Anything else raises \<open>ValueError\<close>.
\<close>

definition int_base2 :: "string \<Rightarrow> py_error + int" where
  "int_base2 s =
     (let s1 = dropWhile py_space s;
          (sign, s2) =
            (case s1 of
               c # cs \<Rightarrow>
                 if c = CHR ''+'' then (1, cs) else if c = CHR ''-'' then (- 1, cs) else (1, s1)
             | [] \<Rightarrow> (1, s1));
          s3 =
            (case s2 of
               z # b # cs \<Rightarrow>
                 if z = CHR ''0'' \<and> (b = CHR ''b'' \<or> b = CHR ''B'')
                 then (case cs of u # cs' \<Rightarrow> if u = CHR ''_'' then cs' else cs | [] \<Rightarrow> cs)
                 else s2
             | _ \<Rightarrow> s2)
      in case s3 of
           [] \<Rightarrow> Inl ValueError
         | c # _ \<Rightarrow>
             if c \<noteq> CHR ''0'' \<and> c \<noteq> CHR ''1'' then Inl ValueError
             else (case bin_digits 0 False s3 of
                     None \<Rightarrow> Inl ValueError
                   | Some (n, rest) \<Rightarrow>
                       if dropWhile py_space rest = [] then Inr (sign * n)
                       else Inl ValueError))"

text \<open>The decimal digits of a natural number.\<close>

fun str_nat :: "nat \<Rightarrow> string" where
  "str_nat n =
     (if n < 10 then [''0123456789'' ! n]
      else str_nat (n div 10) @ [''0123456789'' ! (n mod 10)])"

declare str_nat.simps [simp del]

text \<open>
  Line 125: \<open>str\<close> of an integer. CPython converts at most 4300 digits (the default of
  \<open>sys.get_int_max_str_digits()\<close>, the sign not counted) and raises \<open>ValueError\<close> beyond.
\<close>

definition max_str_digits :: nat where
  "max_str_digits = 4300"

definition py_str :: "int \<Rightarrow> py_error + string" where
  "py_str n =
     (if 10 ^ max_str_digits \<le> \<bar>n\<bar> then Inl ValueError
      else Inr ((if n < 0 then ''-'' else []) @ str_nat (nat \<bar>n\<bar>)))"

text \<open>Lines 139 to 142: the path \<open>f'{data}/cards/{deck_name}.npy'\<close>, for each folder.\<close>

definition npy_path :: "string \<Rightarrow> string \<Rightarrow> string \<Rightarrow> string" where
  "npy_path data folder deck_name = data @ ''/'' @ folder @ ''/'' @ deck_name @ ''.npy''"

text \<open>
  Lines 139 to 142. \<open>np.save\<close> and the file system behind it are not code of this
  program: \<open>np_save\<close> is a parameter, which for a state of the file system, a path and
  an array either raises (a missing or write-protected directory, a full disk) or gives
  the state after the write. The four arrays are saved one after the other, and the
  first save that raises ends the function.
\<close>

definition save_results ::
  "('fs \<Rightarrow> string \<Rightarrow> int option list list \<Rightarrow> py_error + 'fs) \<Rightarrow>
     'fs \<Rightarrow> string \<Rightarrow> string \<Rightarrow> results \<Rightarrow> py_error + 'fs" where
  "save_results np_save fs data deck_name out =
     raise_or (np_save fs (npy_path data ''cards'' deck_name)
                 (to_array (p2_wins_cards out))) (\<lambda>fs.
     raise_or (np_save fs (npy_path data ''tricks'' deck_name)
                 (to_array (p2_wins_tricks out))) (\<lambda>fs.
     raise_or (np_save fs (npy_path data ''cards_ties'' deck_name)
                 (to_array (draws_cards out))) (\<lambda>fs.
     np_save fs (npy_path data ''tricks_ties'' deck_name)
       (to_array (draws_tricks out)))))"

text \<open>Lines 109 to 123: the four empty frames, filled in the order of \<open>itertools.product\<close>.\<close>

definition fill_frames :: "string \<Rightarrow> results" where
  "fill_frames deck =
     foldl (play_pair deck)
       \<lparr>p2_wins_cards = DataFrame sequences sequences,
        p2_wins_tricks = DataFrame sequences sequences,
        draws_cards = DataFrame sequences sequences,
        draws_tricks = DataFrame sequences sequences\<rparr>
       (List.product sequences sequences)"

text \<open>
  Lines 109 to 143. After the loop the deck name is computed, in both modes, and can
  raise; then the rows are reordered; then, unless \<open>batched\<close>, the arrays are saved.
  The result is the exception raised, or the four frames and the file system.
\<close>

definition play_one_deck ::
  "('fs \<Rightarrow> string \<Rightarrow> int option list list \<Rightarrow> py_error + 'fs) \<Rightarrow>
     string \<Rightarrow> string \<Rightarrow> bool \<Rightarrow> 'fs \<Rightarrow> py_error + results \<times> 'fs" where
  "play_one_deck np_save deck data batched fs =
     (let res = fill_frames deck in
      raise_or (int_base2 deck) (\<lambda>n.
      raise_or (py_str n) (\<lambda>deck_name.
      let reversed_sequences = rev sequences in
      raise_or (loc_rows (p2_wins_cards res) reversed_sequences) (\<lambda>wc.
      raise_or (loc_rows (p2_wins_tricks res) reversed_sequences) (\<lambda>wt.
      raise_or (loc_rows (draws_cards res) reversed_sequences) (\<lambda>dc.
      raise_or (loc_rows (draws_tricks res) reversed_sequences) (\<lambda>dt.
      let out = \<lparr>p2_wins_cards = wc, p2_wins_tricks = wt,
                 draws_cards = dc, draws_tricks = dt\<rparr>
      in if batched then Inr (out, fs)
         else raise_or (save_results np_save fs data deck_name out)
                (\<lambda>fs. Inr (out, fs)))))))))"

section \<open>The scan as the specification describes it\<close>

text \<open>The window of three symbols that starts at position \<open>i\<close>, symbol by symbol.\<close>

definition window :: "string \<Rightarrow> nat \<Rightarrow> string" where
  "window deck i = [deck ! i, deck ! (i + 1), deck ! (i + 2)]"

text \<open>
  The scan in the words of the specification, as a relation between the cursor \<open>i\<close>, the
  pile, the score so far \<open>(p1_cards, p2_cards, p1_tricks, p2_tricks)\<close> and the final
  score. While \<open>i < len(deck) - 2\<close> the pile grows by 1 and the window at \<open>i\<close> is
  compared first to \<open>seq1\<close>, then to \<open>seq2\<close>: a match awards the whole pile and one trick
  to that player, resets the pile to 2 and advances \<open>i\<close> by 3; no match advances \<open>i\<close>
  by 1.
\<close>

inductive spec_scan ::
  "string \<Rightarrow> string \<Rightarrow> string \<Rightarrow> nat \<Rightarrow> int \<Rightarrow>
     int \<times> int \<times> int \<times> int \<Rightarrow> int \<times> int \<times> int \<times> int \<Rightarrow> bool"
  for deck seq1 seq2 where
  finished: "\<not> int i < int (length deck) - 2 \<Longrightarrow> spec_scan deck seq1 seq2 i pl sc sc"
| match1: "int i < int (length deck) - 2 \<Longrightarrow> window deck i = seq1 \<Longrightarrow>
     spec_scan deck seq1 seq2 (i + 3) 2 (c1 + (pl + 1), c2, t1 + 1, t2) r \<Longrightarrow>
     spec_scan deck seq1 seq2 i pl (c1, c2, t1, t2) r"
| match2: "int i < int (length deck) - 2 \<Longrightarrow>
     window deck i \<noteq> seq1 \<Longrightarrow> window deck i = seq2 \<Longrightarrow>
     spec_scan deck seq1 seq2 (i + 3) 2 (c1, c2 + (pl + 1), t1, t2 + 1) r \<Longrightarrow>
     spec_scan deck seq1 seq2 i pl (c1, c2, t1, t2) r"
| no_match: "int i < int (length deck) - 2 \<Longrightarrow>
     window deck i \<noteq> seq1 \<Longrightarrow> window deck i \<noteq> seq2 \<Longrightarrow>
     spec_scan deck seq1 seq2 (i + 1) (pl + 1) sc r \<Longrightarrow>
     spec_scan deck seq1 seq2 i pl sc r"

text \<open>The states of the variables at the head of the loop, pass after pass.\<close>

inductive loop_head :: "string \<Rightarrow> string \<Rightarrow> string \<Rightarrow> scan \<Rightarrow> bool"
  for deck seq1 seq2 where
  first: "loop_head deck seq1 seq2 scan_init"
| again: "loop_head deck seq1 seq2 s \<Longrightarrow> scan_cond deck s \<Longrightarrow>
     loop_head deck seq1 seq2 (scan_body deck seq1 seq2 s)"

section \<open>Invariants\<close>

text \<open>
  The cards awarded and the cards waiting in the pile have all been passed by the
  cursor, three cards are passed for every trick, and the cursor stays inside the deck.
\<close>

definition bounds_inv :: "string \<Rightarrow> scan \<Rightarrow> bool" where
  "bounds_inv deck s \<longleftrightarrow>
     p1_cards s + p2_cards s + (pile s - 2) \<le> int (idx s) \<and>
     3 * (p1_tricks s + p2_tricks s) \<le> int (idx s) \<and>
     idx s \<le> length deck \<and> 2 \<le> pile s \<and>
     0 \<le> p1_cards s \<and> 0 \<le> p2_cards s \<and> 0 \<le> p1_tricks s \<and> 0 \<le> p2_tricks s"

text \<open>Every trick came with at least three cards, and no cards came without a trick.\<close>

definition award_inv :: "scan \<Rightarrow> bool" where
  "award_inv s \<longleftrightarrow>
     2 \<le> pile s \<and>
     0 \<le> p1_tricks s \<and> 3 * p1_tricks s \<le> p1_cards s \<and>
     (p1_tricks s = 0 \<longrightarrow> p1_cards s = 0) \<and>
     0 \<le> p2_tricks s \<and> 3 * p2_tricks s \<le> p2_cards s \<and>
     (p2_tricks s = 0 \<longrightarrow> p2_cards s = 0)"

text \<open>Player 2 has been awarded nothing.\<close>

definition p2_idle :: "scan \<Rightarrow> bool" where
  "p2_idle s \<longleftrightarrow> p2_cards s = 0 \<and> p2_tricks s = 0"

text \<open>
  A frame during the loop of \<open>play_one_deck\<close>: its labels are the sequences, and exactly
  the cells of the pairs \<open>S\<close> played so far hold their flag, chosen by \<open>pick\<close> from the
  outcome of the pair.
\<close>

definition frame_inv ::
  "(int \<times> int \<times> int \<times> int \<Rightarrow> int) \<Rightarrow> string \<Rightarrow> (string \<times> string) set \<Rightarrow> dataframe \<Rightarrow> bool" where
  "frame_inv pick deck S df \<longleftrightarrow>
     index df = sequences \<and> columns df = sequences \<and>
     (\<forall>a b. cells df (a, b) = (if (a, b) \<in> S then Some (pick (outcome deck a b)) else None))"

definition frames_inv :: "string \<Rightarrow> (string \<times> string) set \<Rightarrow> results \<Rightarrow> bool" where
  "frames_inv deck S res \<longleftrightarrow>
     frame_inv (\<lambda>(cw, cd, tw, td). cw) deck S (p2_wins_cards res) \<and>
     frame_inv (\<lambda>(cw, cd, tw, td). tw) deck S (p2_wins_tricks res) \<and>
     frame_inv (\<lambda>(cw, cd, tw, td). cd) deck S (draws_cards res) \<and>
     frame_inv (\<lambda>(cw, cd, tw, td). td) deck S (draws_tricks res)"

text \<open>The four frames after the loop, with the rows in reversed order (lines 128 to 132).\<close>

definition reordered :: "string \<Rightarrow> results" where
  "reordered deck =
     \<lparr>p2_wins_cards = (p2_wins_cards (fill_frames deck))\<lparr>index := rev sequences\<rparr>,
      p2_wins_tricks = (p2_wins_tricks (fill_frames deck))\<lparr>index := rev sequences\<rparr>,
      draws_cards = (draws_cards (fill_frames deck))\<lparr>index := rev sequences\<rparr>,
      draws_tricks = (draws_tricks (fill_frames deck))\<lparr>index := rev sequences\<rparr>\<rparr>"

text \<open>
  A returned matrix: the rows are labelled from \<open>111\<close> down to \<open>000\<close>, the columns from
  \<open>000\<close> up to \<open>111\<close>, the array has 8 rows of 8 cells, no cell is empty, and the cell in
  row \<open>i\<close> and column \<open>j\<close> of the array is the cell of the \<open>i\<close>-th row label and the
  \<open>j\<close>-th column label.
\<close>

definition full_frame :: "dataframe \<Rightarrow> bool" where
  "full_frame df \<longleftrightarrow>
     index df = [''111'', ''110'', ''101'', ''100'', ''011'', ''010'', ''001'', ''000''] \<and>
     columns df = [''000'', ''001'', ''010'', ''011'', ''100'', ''101'', ''110'', ''111''] \<and>
     length (to_array df) = 8 \<and>
     (\<forall>row \<in> set (to_array df). length row = 8 \<and> None \<notin> set row) \<and>
     (\<forall>i < 8. \<forall>j < 8. to_array df ! i ! j = cells df (index df ! i, columns df ! j))"

section \<open>Properties of the scoring kernel\<close>

subsection \<open>Unfolding the loop, and its invariant rule\<close>

lemma score_loop_stop: "\<not> scan_cond deck s \<Longrightarrow> score_loop deck seq1 seq2 s = s"
  by (simp add: score_loop.simps)

lemma score_loop_step:
  "scan_cond deck s \<Longrightarrow>
     score_loop deck seq1 seq2 s = score_loop deck seq1 seq2 (scan_body deck seq1 seq2 s)"
  by (subst score_loop.simps) simp

lemma score_loop_invariant:
  "P s \<Longrightarrow> (\<And>t. P t \<Longrightarrow> scan_cond deck t \<Longrightarrow> P (scan_body deck seq1 seq2 t)) \<Longrightarrow>
     P (score_loop deck seq1 seq2 s) \<and> \<not> scan_cond deck (score_loop deck seq1 seq2 s)"
proof (induction deck seq1 seq2 s rule: score_loop.induct)
  case (1 deck seq1 seq2 s)
  show ?case
  proof (cases "scan_cond deck s")
    case True
    then have "P (scan_body deck seq1 seq2 s)" using "1.prems" by blast
    then show ?thesis using "1.IH" [OF True] "1.prems"(2) True by (simp add: score_loop_step)
  next
    case False
    then show ?thesis using "1.prems"(1) by (simp add: score_loop_stop)
  qed
qed

subsection \<open>The code against the scan of the specification\<close>

lemma slice_window: "i + 2 < length deck \<Longrightarrow> take 3 (drop i deck) = window deck i"
proof -
  assume a: "i + 2 < length deck"
  have "drop i deck = deck ! i # drop (Suc i) deck"
    using a by (simp add: Cons_nth_drop_Suc)
  also have "drop (Suc i) deck = deck ! (i + 1) # drop (Suc (Suc i)) deck"
    using a by (simp add: Cons_nth_drop_Suc)
  also have "drop (Suc (Suc i)) deck = deck ! (i + 2) # drop (Suc (Suc (Suc i))) deck"
    using a by (simp add: Cons_nth_drop_Suc)
  finally show ?thesis by (simp add: window_def)
qed

lemma cond_window: "scan_cond deck s \<Longrightarrow> take 3 (drop (idx s) deck) = window deck (idx s)"
  by (rule slice_window) (simp add: scan_cond_def)

lemma code_refines_spec:
  "spec_scan deck seq1 seq2 (idx s) (pile s) (outputs s) (outputs (score_loop deck seq1 seq2 s))"
proof (induction deck seq1 seq2 s rule: score_loop.induct)
  case (1 deck seq1 seq2 s)
  show ?case
  proof (cases "scan_cond deck s")
    case False
    then show ?thesis
      by (simp add: score_loop_stop scan_cond_def spec_scan.finished)
  next
    case True
    note ih = "1.IH" [OF True]
    have c: "int (idx s) < int (length deck) - 2" using True by (simp add: scan_cond_def)
    have w: "take 3 (drop (idx s) deck) = window deck (idx s)" by (rule cond_window [OF True])
    consider (a) "window deck (idx s) = seq1"
      | (b) "window deck (idx s) \<noteq> seq1" "window deck (idx s) = seq2"
      | (n) "window deck (idx s) \<noteq> seq1" "window deck (idx s) \<noteq> seq2" by blast
    then show ?thesis
    proof cases
      case a
      then have "spec_scan deck seq1 seq2 (idx s + 3) 2
          (p1_cards s + (pile s + 1), p2_cards s, p1_tricks s + 1, p2_tricks s)
          (outputs (score_loop deck seq1 seq2 s))"
        using ih w by (simp add: score_loop_step [OF True] scan_body_def Let_def outputs_def)
      then show ?thesis using c a by (simp add: outputs_def spec_scan.match1)
    next
      case b
      then have "spec_scan deck seq1 seq2 (idx s + 3) 2
          (p1_cards s, p2_cards s + (pile s + 1), p1_tricks s, p2_tricks s + 1)
          (outputs (score_loop deck seq1 seq2 s))"
        using ih w by (simp add: score_loop_step [OF True] scan_body_def Let_def outputs_def)
      then show ?thesis using c b by (simp add: outputs_def spec_scan.match2)
    next
      case n
      then have "spec_scan deck seq1 seq2 (idx s + 1) (pile s + 1) (outputs s)
          (outputs (score_loop deck seq1 seq2 s))"
        using ih w by (simp add: score_loop_step [OF True] scan_body_def Let_def outputs_def)
      then show ?thesis using c n by (simp add: spec_scan.no_match)
    qed
  qed
qed

lemma spec_determines_code:
  "spec_scan deck seq1 seq2 i pl sc r \<Longrightarrow>
     outputs (score_loop deck seq1 seq2
       \<lparr>idx = i, pile = pl, p1_cards = fst sc, p2_cards = fst (snd sc),
        p1_tricks = fst (snd (snd sc)), p2_tricks = snd (snd (snd sc))\<rparr>) = r"
proof (induction rule: spec_scan.induct)
  case (finished i pl sc)
  then show ?case by (simp add: score_loop_stop scan_cond_def outputs_def)
next
  case (match1 i c1 pl c2 t1 t2 r)
  then show ?case
    by (subst score_loop_step)
       (simp_all add: scan_cond_def scan_body_def Let_def slice_window)
next
  case (match2 i c1 c2 pl t1 t2 r)
  then show ?case
    by (subst score_loop_step)
       (simp_all add: scan_cond_def scan_body_def Let_def slice_window)
next
  case (no_match i pl sc r)
  then show ?case
    by (subst score_loop_step)
       (simp_all add: scan_cond_def scan_body_def Let_def slice_window)
qed

text \<open>
  C1. For every deck and every pair of sequences, \<open>score_deck\<close> computes exactly the scan
  of the specification: started with cursor 0, pile 2 and all four counts 0, the scan
  ends with the score \<open>r\<close> if and only if \<open>score_deck\<close> returns \<open>r\<close>.
\<close>

theorem score_deck_is_spec_scan:
  "spec_scan deck seq1 seq2 0 2 (0, 0, 0, 0) r \<longleftrightarrow> score_deck deck seq1 seq2 = r"
proof
  assume "spec_scan deck seq1 seq2 0 2 (0, 0, 0, 0) r"
  from spec_determines_code [OF this] show "score_deck deck seq1 seq2 = r"
    by (simp add: score_deck_def scan_init_def)
next
  assume "score_deck deck seq1 seq2 = r"
  then show "spec_scan deck seq1 seq2 0 2 (0, 0, 0, 0) r"
    using code_refines_spec [of deck seq1 seq2 scan_init]
    by (simp add: score_deck_def scan_init_def outputs_def)
qed

text \<open>C1 at the deck \<open>0101\<close>: the scan of the specification ends with \<open>(3, 0, 1, 0)\<close>.\<close>

theorem score_deck_is_spec_scan_witness:
  "spec_scan ''0101'' ''010'' ''101'' 0 2 (0, 0, 0, 0) (3, 0, 1, 0)"
proof -
  have "score_deck ''0101'' ''010'' ''101'' = (3, 0, 1, 0)"
    by (simp add: score_deck_def outputs_def score_loop.simps scan_cond_def scan_body_def
        scan_init_def Let_def)
  then show ?thesis
    using score_deck_is_spec_scan [of "''0101''" "''010''" "''101''" "(3, 0, 1, 0)"] by simp
qed

subsection \<open>Short decks\<close>

text \<open>
  C2, as the claim states it, fails: a deck of exactly three cards is scanned once, since
  \<open>0 < 3 - 2\<close>, and when it equals \<open>seq1\<close> player 1 is awarded 3 cards and 1 trick.
\<close>

theorem score_deck_length3_counterexample:
  "length ''000'' < 4 \<and> length ''000'' = 3 \<and> length ''111'' = 3 \<and>
   scan_cond ''000'' scan_init \<and>
   score_deck ''000'' ''000'' ''111'' = (3, 0, 1, 0) \<and>
   score_deck ''000'' ''000'' ''111'' \<noteq> (0, 0, 0, 0)"
  by (simp add: score_deck_def outputs_def score_loop.simps scan_cond_def scan_body_def
      scan_init_def Let_def)

text \<open>
  C2, amended. For a deck of fewer than three cards the scan range is empty and
  \<open>score_deck\<close> returns \<open>(0, 0, 0, 0)\<close>. A deck of exactly three cards is scanned once:
  \<open>score_deck\<close> returns \<open>(3, 0, 1, 0)\<close> when the deck is \<open>seq1\<close>, \<open>(0, 3, 0, 1)\<close> when it is
  \<open>seq2\<close> and not \<open>seq1\<close>, and \<open>(0, 0, 0, 0)\<close> when it is neither.
\<close>

theorem score_deck_short_deck:
  "(length deck < 3 \<longrightarrow>
      \<not> scan_cond deck scan_init \<and> score_deck deck seq1 seq2 = (0, 0, 0, 0))
   \<and> (length deck = 3 \<longrightarrow>
      scan_cond deck scan_init \<and>
      score_deck deck seq1 seq2 =
        (if deck = seq1 then (3, 0, 1, 0)
         else if deck = seq2 then (0, 3, 0, 1)
         else (0, 0, 0, 0)))"
proof (intro conjI impI)
  assume "length deck < 3"
  then show "\<not> scan_cond deck scan_init" by (simp add: scan_cond_def scan_init_def)
  then show "score_deck deck seq1 seq2 = (0, 0, 0, 0)"
    by (simp add: score_deck_def score_loop_stop outputs_def scan_init_def)
next
  assume l: "length deck = 3"
  then show "scan_cond deck scan_init" by (simp add: scan_cond_def scan_init_def)
  show "score_deck deck seq1 seq2 =
        (if deck = seq1 then (3, 0, 1, 0)
         else if deck = seq2 then (0, 3, 0, 1)
         else (0, 0, 0, 0))"
    using l
    by (simp add: score_deck_def outputs_def score_loop.simps scan_cond_def scan_body_def
        scan_init_def Let_def)
qed

text \<open>The amended C2 at the decks \<open>01\<close> and \<open>010\<close>.\<close>

theorem score_deck_short_deck_witness:
  "length ''01'' < 3 \<and> score_deck ''01'' ''010'' ''101'' = (0, 0, 0, 0) \<and>
   length ''010'' = 3 \<and> score_deck ''010'' ''101'' ''010'' = (0, 3, 0, 1)"
  using score_deck_short_deck [of "''01''" "''010''" "''101''"]
    score_deck_short_deck [of "''010''" "''101''" "''010''"]
  by simp

subsection \<open>Bounds on the score\<close>

lemma bounds_inv_init: "bounds_inv deck scan_init"
  by (simp add: bounds_inv_def scan_init_def)

lemma bounds_inv_body:
  "bounds_inv deck s \<Longrightarrow> scan_cond deck s \<Longrightarrow> bounds_inv deck (scan_body deck seq1 seq2 s)"
  by (auto simp: bounds_inv_def scan_cond_def scan_body_def Let_def)

lemma bounds_inv_final: "bounds_inv deck (score_loop deck seq1 seq2 scan_init)"
  using score_loop_invariant [where P = "bounds_inv deck", OF bounds_inv_init bounds_inv_body]
  by blast

text \<open>
  C3. For every deck \<open>d\<close> and every pair of sequences, the cards of the two players sum
  to at most \<open>len(d)\<close>, their tricks sum to at most \<open>len(d)\<close> divided by 3 and rounded
  down, and none of the four outputs is negative.
\<close>

theorem score_deck_bounds:
  "(case score_deck d s1 s2 of (p1c, p2c, p1t, p2t) \<Rightarrow>
      p1c + p2c \<le> int (length d) \<and> p1t + p2t \<le> int (length d) div 3 \<and>
      0 \<le> p1c \<and> 0 \<le> p2c \<and> 0 \<le> p1t \<and> 0 \<le> p2t)"
proof -
  have "bounds_inv d (score_loop d s1 s2 scan_init)" by (rule bounds_inv_final)
  then show ?thesis
    by (simp add: score_deck_def outputs_def bounds_inv_def) linarith
qed

subsection \<open>Equal sequences\<close>

lemma same_seq_body:
  "p2_cards (scan_body deck sq sq s) = p2_cards s \<and>
   p2_tricks (scan_body deck sq sq s) = p2_tricks s"
  by (simp add: scan_body_def Let_def)

lemma same_seq_credit:
  "p1_tricks (scan_body deck sq sq s)
     = p1_tricks s + (if take 3 (drop (idx s) deck) = sq then 1 else 0) \<and>
   p1_cards (scan_body deck sq sq s)
     = p1_cards s + (if take 3 (drop (idx s) deck) = sq then pile s + 1 else 0)"
  by (simp add: scan_body_def Let_def)

text \<open>
  C4. When both players chose the same sequence \<open>sq\<close>, the branch of \<open>seq1\<close> is taken at
  every match: a pass through the loop whose window is \<open>sq\<close> gives the pile and one trick
  to player 1, no pass changes player 2's cards or tricks, and \<open>score_deck\<close> returns 0
  for both of them, whatever the deck.
\<close>

theorem score_deck_same_sequence:
  "(\<forall>s. p1_tricks (scan_body deck sq sq s)
          = p1_tricks s + (if take 3 (drop (idx s) deck) = sq then 1 else 0) \<and>
        p1_cards (scan_body deck sq sq s)
          = p1_cards s + (if take 3 (drop (idx s) deck) = sq then pile s + 1 else 0) \<and>
        p2_cards (scan_body deck sq sq s) = p2_cards s \<and>
        p2_tricks (scan_body deck sq sq s) = p2_tricks s)
   \<and> (case score_deck deck sq sq of (p1c, p2c, p1t, p2t) \<Rightarrow> p2c = 0 \<and> p2t = 0)"
proof -
  have "p2_idle (score_loop deck sq sq scan_init)"
    using score_loop_invariant [where P = p2_idle and s = scan_init and deck = deck
        and ?seq1.0 = sq and ?seq2.0 = sq]
    by (simp add: p2_idle_def same_seq_body scan_init_def)
  then have "case score_deck deck sq sq of (p1c, p2c, p1t, p2t) \<Rightarrow> p2c = 0 \<and> p2t = 0"
    by (simp add: score_deck_def outputs_def p2_idle_def)
  then show ?thesis using same_seq_body same_seq_credit by blast
qed

subsection \<open>The classifier\<close>

text \<open>
  C5. For each metric \<open>calculate_winner\<close> sets the winner flag to 1 exactly when player
  1's count is below player 2's, and the draw flag to 1 exactly when the counts are
  equal; so one of three cases holds: winner 1 and draw 0 (below), winner 0 and draw 1
  (equal), both 0 (above). In particular \<open>calculate_winner(5, 5, 2, 3) = (0, 1, 1, 0)\<close>.
\<close>

theorem calculate_winner_rule:
  "calculate_winner p1c p2c p1t p2t =
     ((if p1c < p2c then 1 else 0), (if p1c = p2c then 1 else 0),
      (if p1t < p2t then 1 else 0), (if p1t = p2t then 1 else 0))
   \<and> (case calculate_winner p1c p2c p1t p2t of
        (cards_winner, cards_draw, tricks_winner, tricks_draw) \<Rightarrow>
          (p1c < p2c \<and> cards_winner = 1 \<and> cards_draw = 0
           \<or> p1c = p2c \<and> cards_winner = 0 \<and> cards_draw = 1
           \<or> p2c < p1c \<and> cards_winner = 0 \<and> cards_draw = 0)
        \<and> (p1t < p2t \<and> tricks_winner = 1 \<and> tricks_draw = 0
           \<or> p1t = p2t \<and> tricks_winner = 0 \<and> tricks_draw = 1
           \<or> p2t < p1t \<and> tricks_winner = 0 \<and> tricks_draw = 0)
        \<and> (cards_draw = 1 \<longleftrightarrow> p1c = p2c) \<and> (tricks_draw = 1 \<longleftrightarrow> p1t = p2t))
   \<and> calculate_winner 5 5 2 3 = (0, 1, 1, 0)"
  by (auto simp: calculate_winner_def)

subsection \<open>A trace\<close>

text \<open>
  C6. On the alternating deck \<open>0101010101\<close> with \<open>seq1 = 010\<close> and \<open>seq2 = 101\<close>, the first
  pass through the loop matches \<open>seq1\<close> with a pile of 3: player 1 has 3 cards and 1 trick
  and the cursor is at 3. The whole scan returns \<open>(6, 3, 2, 1)\<close>.
\<close>

theorem score_deck_alternating:
  "scan_body ''0101010101'' ''010'' ''101'' scan_init =
     \<lparr>idx = 3, pile = 2, p1_cards = 3, p2_cards = 0, p1_tricks = 1, p2_tricks = 0\<rparr>
   \<and> score_deck ''0101010101'' ''010'' ''101'' = (6, 3, 2, 1)"
  by (simp add: score_deck_def outputs_def score_loop.simps scan_cond_def scan_body_def
      scan_init_def Let_def)

subsection \<open>Termination\<close>

lemma score_loop_opt_total:
  "score_loop_opt deck seq1 seq2 s = Some (score_loop deck seq1 seq2 s)"
proof (induction deck seq1 seq2 s rule: score_loop.induct)
  case (1 deck seq1 seq2 s)
  show ?case
  proof (cases "scan_cond deck s")
    case True
    then show ?thesis
      using "1.IH" by (subst score_loop_opt.simps) (simp add: score_loop_step)
  next
    case False
    then show ?thesis by (subst score_loop_opt.simps) (simp add: score_loop_stop)
  qed
qed

lemma body_advances:
  "scan_cond deck s \<Longrightarrow>
     (idx (scan_body deck seq1 seq2 s) = idx s + 1 \<or> idx (scan_body deck seq1 seq2 s) = idx s + 3)
     \<and> idx (scan_body deck seq1 seq2 s) \<le> length deck"
  by (auto simp: scan_cond_def scan_body_def Let_def)

text \<open>
  C7. \<open>score_deck\<close> returns on every input: the loop, written with no termination
  argument, returns from every state of its variables, in a state where the loop test
  fails. Every pass through the body moves the cursor forward by 1 or by 3, and the
  distance from the cursor to the end of the deck, which does not change, gets smaller.
\<close>

theorem score_deck_terminates:
  "score_deck_opt deck seq1 seq2 = Some (score_deck deck seq1 seq2)
   \<and> (\<forall>s. \<exists>t. score_loop_opt deck seq1 seq2 s = Some t \<and> \<not> scan_cond deck t)
   \<and> (\<forall>s. scan_cond deck s \<longrightarrow>
         idx s < idx (scan_body deck seq1 seq2 s)
       \<and> (idx (scan_body deck seq1 seq2 s) = idx s + 1
          \<or> idx (scan_body deck seq1 seq2 s) = idx s + 3)
       \<and> length deck - idx (scan_body deck seq1 seq2 s) < length deck - idx s)"
proof -
  have a: "score_deck_opt deck seq1 seq2 = Some (score_deck deck seq1 seq2)"
    by (simp add: score_deck_opt_def score_deck_def score_loop_opt_total)
  have b: "\<exists>t. score_loop_opt deck seq1 seq2 s = Some t \<and> \<not> scan_cond deck t" for s
    using score_loop_invariant [where P = "\<lambda>_. True" and s = s and deck = deck
        and ?seq1.0 = seq1 and ?seq2.0 = seq2]
    by (simp add: score_loop_opt_total)
  have c: "idx s < idx (scan_body deck seq1 seq2 s)
       \<and> (idx (scan_body deck seq1 seq2 s) = idx s + 1
          \<or> idx (scan_body deck seq1 seq2 s) = idx s + 3)
       \<and> length deck - idx (scan_body deck seq1 seq2 s) < length deck - idx s"
    if "scan_cond deck s" for s
    using body_advances [OF that, of seq1 seq2] that by (auto simp: scan_cond_def)
  show ?thesis using a b c by blast
qed

text \<open>C7 at the deck \<open>0101\<close>: the first pass moves the cursor, and the loop returns.\<close>

theorem score_deck_terminates_witness:
  "scan_cond ''0101'' scan_init
   \<and> idx scan_init < idx (scan_body ''0101'' ''010'' ''101'' scan_init)
   \<and> score_deck_opt ''0101'' ''010'' ''101'' = Some (3, 0, 1, 0)"
proof -
  have h: "scan_cond ''0101'' scan_init" by (simp add: scan_cond_def scan_init_def)
  have v: "score_deck ''0101'' ''010'' ''101'' = (3, 0, 1, 0)"
    by (simp add: score_deck_def outputs_def score_loop.simps scan_cond_def scan_body_def
        scan_init_def Let_def)
  show ?thesis using score_deck_terminates [of "''0101''" "''010''" "''101''"] h v by simp
qed

subsection \<open>The pile at the head of the loop\<close>

lemma award_inv_body: "award_inv s \<Longrightarrow> award_inv (scan_body deck seq1 seq2 s)"
  by (auto simp: award_inv_def scan_body_def Let_def)

lemma loop_head_award_inv: "loop_head deck seq1 seq2 s \<Longrightarrow> award_inv s"
proof (induction rule: loop_head.induct)
  case first
  show ?case by (simp add: award_inv_def scan_init_def)
next
  case (again s)
  then show ?case by (simp add: award_inv_body)
qed

lemma loop_head_final: "loop_head deck seq1 seq2 (score_loop deck seq1 seq2 scan_init)"
  using score_loop_invariant [where P = "loop_head deck seq1 seq2" and s = scan_init
      and deck = deck and ?seq1.0 = seq1 and ?seq2.0 = seq2]
  by (simp add: loop_head.first loop_head.again)

lemma award_at_least_3:
  "2 \<le> pile s \<Longrightarrow>
     (p1_cards (scan_body deck seq1 seq2 s) = p1_cards s
        \<and> p1_tricks (scan_body deck seq1 seq2 s) = p1_tricks s
      \<or> p1_cards s + 3 \<le> p1_cards (scan_body deck seq1 seq2 s)
        \<and> p1_tricks (scan_body deck seq1 seq2 s) = p1_tricks s + 1)
   \<and> (p2_cards (scan_body deck seq1 seq2 s) = p2_cards s
        \<and> p2_tricks (scan_body deck seq1 seq2 s) = p2_tricks s
      \<or> p2_cards s + 3 \<le> p2_cards (scan_body deck seq1 seq2 s)
        \<and> p2_tricks (scan_body deck seq1 seq2 s) = p2_tricks s + 1)"
  by (simp add: scan_body_def Let_def)

text \<open>
  C10. At the head of every pass through the loop the pile is at least 2, so a pass
  either leaves a player's cards and tricks as they are or awards that player at least
  3 cards together with one trick. Hence for every deck and every pair of sequences
  the outputs satisfy \<open>p1_cards \<ge> 3 * p1_tricks\<close> and \<open>p2_cards \<ge> 3 * p2_tricks\<close>, and a
  player's cards are 0 if and only if that player's tricks are 0.
\<close>

theorem score_deck_pile_at_least_2:
  "(\<forall>s. loop_head deck seq1 seq2 s \<longrightarrow> 2 \<le> pile s
     \<and> (p1_cards (scan_body deck seq1 seq2 s) = p1_cards s
          \<and> p1_tricks (scan_body deck seq1 seq2 s) = p1_tricks s
        \<or> p1_cards s + 3 \<le> p1_cards (scan_body deck seq1 seq2 s)
          \<and> p1_tricks (scan_body deck seq1 seq2 s) = p1_tricks s + 1)
     \<and> (p2_cards (scan_body deck seq1 seq2 s) = p2_cards s
          \<and> p2_tricks (scan_body deck seq1 seq2 s) = p2_tricks s
        \<or> p2_cards s + 3 \<le> p2_cards (scan_body deck seq1 seq2 s)
          \<and> p2_tricks (scan_body deck seq1 seq2 s) = p2_tricks s + 1))
   \<and> (case score_deck deck seq1 seq2 of (p1c, p2c, p1t, p2t) \<Rightarrow>
        3 * p1t \<le> p1c \<and> 3 * p2t \<le> p2c \<and> (p1c = 0 \<longleftrightarrow> p1t = 0) \<and> (p2c = 0 \<longleftrightarrow> p2t = 0))"
proof -
  have a: "2 \<le> pile s" if "loop_head deck seq1 seq2 s" for s
    using loop_head_award_inv [OF that] by (simp add: award_inv_def)
  have "award_inv (score_loop deck seq1 seq2 scan_init)"
    by (rule loop_head_award_inv [OF loop_head_final])
  then have b: "(case score_deck deck seq1 seq2 of (p1c, p2c, p1t, p2t) \<Rightarrow>
        3 * p1t \<le> p1c \<and> 3 * p2t \<le> p2c \<and> (p1c = 0 \<longleftrightarrow> p1t = 0) \<and> (p2c = 0 \<longleftrightarrow> p2t = 0))"
    by (auto simp: score_deck_def outputs_def award_inv_def)
  show ?thesis using a b award_at_least_3 by blast
qed

text \<open>
  C10 at the alternating deck: the state after the first pass is a loop head with a
  pile of at least 2, and three times player 1's tricks is at most player 1's cards.
\<close>

theorem score_deck_pile_at_least_2_witness:
  "loop_head ''0101010101'' ''010'' ''101'' (scan_body ''0101010101'' ''010'' ''101'' scan_init)
   \<and> 2 \<le> pile (scan_body ''0101010101'' ''010'' ''101'' scan_init)
   \<and> 3 * fst (snd (snd (score_deck ''0101010101'' ''010'' ''101'')))
       \<le> fst (score_deck ''0101010101'' ''010'' ''101'')"
proof -
  have h: "loop_head ''0101010101'' ''010'' ''101''
      (scan_body ''0101010101'' ''010'' ''101'' scan_init)"
    by (rule loop_head.again [OF loop_head.first]) (simp add: scan_cond_def scan_init_def)
  show ?thesis
    using score_deck_pile_at_least_2 [of "''0101010101''" "''010''" "''101''"] h
    by (auto simp: split_beta)
qed

section \<open>Properties of the matrix builder\<close>

lemma frame_inv_at_set:
  "frame_inv pick deck S df \<Longrightarrow> seq1 \<in> set sequences \<Longrightarrow> seq2 \<in> set sequences \<Longrightarrow>
     frame_inv pick deck (insert (seq1, seq2) S)
       (at_set df seq1 seq2 (pick (outcome deck seq1 seq2)))"
  by (simp add: frame_inv_def at_set_def)

lemma frames_inv_play_pair:
  assumes "frames_inv deck S res" "seq1 \<in> set sequences" "seq2 \<in> set sequences"
  shows "frames_inv deck (insert (seq1, seq2) S) (play_pair deck res (seq1, seq2))"
proof -
  obtain cw cd tw td where o: "outcome deck seq1 seq2 = (cw, cd, tw, td)"
    by (cases "outcome deck seq1 seq2") auto
  show ?thesis
    using assms frame_inv_at_set [of _ deck S _ seq1 seq2]
    by (fastforce simp: frames_inv_def play_pair_def o)
qed

lemma frames_inv_foldl:
  "frames_inv deck S res \<Longrightarrow> set ps \<subseteq> set sequences \<times> set sequences \<Longrightarrow>
     frames_inv deck (S \<union> set ps) (foldl (play_pair deck) res ps)"
proof (induction ps arbitrary: S res)
  case Nil
  then show ?case by simp
next
  case (Cons p ps)
  obtain seq1 seq2 where p: "p = (seq1, seq2)" by (cases p)
  have "frames_inv deck (insert (seq1, seq2) S) (play_pair deck res (seq1, seq2))"
    using Cons.prems p by (intro frames_inv_play_pair) auto
  from Cons.IH [OF this] Cons.prems(2) show ?case by (simp add: p)
qed

lemma frames_inv_empty:
  "frames_inv deck {}
     \<lparr>p2_wins_cards = DataFrame sequences sequences,
      p2_wins_tricks = DataFrame sequences sequences,
      draws_cards = DataFrame sequences sequences,
      draws_tricks = DataFrame sequences sequences\<rparr>"
  by (simp add: frames_inv_def frame_inv_def DataFrame_def)

lemma frames_inv_fill: "frames_inv deck (set sequences \<times> set sequences) (fill_frames deck)"
  unfolding fill_frames_def
  using frames_inv_foldl [OF frames_inv_empty, of "List.product sequences sequences" deck]
  by simp

lemma loc_rows_rev:
  "index df = sequences \<Longrightarrow> loc_rows df (rev sequences) = Inr (df\<lparr>index := rev sequences\<rparr>)"
  by (simp add: loc_rows_def)

lemma raise_or_Inr_iff: "raise_or x f = Inr y \<longleftrightarrow> (\<exists>v. x = Inr v \<and> f v = Inr y)"
  by (cases x) auto

lemma fill_frames_index:
  "index (p2_wins_cards (fill_frames deck)) = sequences"
  "index (p2_wins_tricks (fill_frames deck)) = sequences"
  "index (draws_cards (fill_frames deck)) = sequences"
  "index (draws_tricks (fill_frames deck)) = sequences"
  using frames_inv_fill [of deck] by (simp_all add: frames_inv_def frame_inv_def)

lemma play_one_deck_unfold:
  "play_one_deck np_save deck data batched fs =
     raise_or (int_base2 deck) (\<lambda>n.
     raise_or (py_str n) (\<lambda>deck_name.
       if batched then Inr (reordered deck, fs)
       else raise_or (save_results np_save fs data deck_name (reordered deck))
              (\<lambda>fs. Inr (reordered deck, fs))))"
  unfolding play_one_deck_def Let_def reordered_def
  by (simp add: loc_rows_rev fill_frames_index)

lemma play_one_deck_returns_reordered:
  "play_one_deck np_save deck data batched fs = Inr (res, fs') \<Longrightarrow> res = reordered deck"
  by (auto simp: play_one_deck_unfold raise_or_Inr_iff split: if_splits)

lemma play_one_deck_returns_iff:
  "(\<exists>res fs'. play_one_deck np_save deck data batched fs = Inr (res, fs')) \<longleftrightarrow>
     (\<exists>n deck_name. int_base2 deck = Inr n \<and> py_str n = Inr deck_name \<and>
        (batched \<or> (\<exists>fs'. save_results np_save fs data deck_name (reordered deck) = Inr fs')))"
  by (cases batched) (auto simp: play_one_deck_unfold raise_or_Inr_iff)

lemma raise_or_Inl_iff:
  "raise_or x f = Inl e \<longleftrightarrow> x = Inl e \<or> (\<exists>v. x = Inr v \<and> f v = Inl e)"
  by (cases x) auto

lemma play_one_deck_raises:
  "play_one_deck np_save deck data batched fs = Inl e \<longleftrightarrow>
     int_base2 deck = Inl e
     \<or> (\<exists>n. int_base2 deck = Inr n \<and> py_str n = Inl e)
     \<or> (\<exists>n deck_name. int_base2 deck = Inr n \<and> py_str n = Inr deck_name \<and> \<not> batched \<and>
           save_results np_save fs data deck_name (reordered deck) = Inl e)"
  by (cases batched) (auto simp: play_one_deck_unfold raise_or_Inl_iff)

lemma py_str_returns_iff: "(\<exists>name. py_str n = Inr name) \<longleftrightarrow> \<bar>n\<bar> < 10 ^ max_str_digits"
  by (auto simp: py_str_def)

lemma pow2_below_limit: "(2::int) ^ 14284 < 10 ^ max_str_digits"
proof -
  have a: "(2::int) ^ 485 < 10 ^ 146" by simp
  have b: "(2::int) ^ 219 < 10 ^ 66" by simp
  have e2: "(14284::nat) = 485 * 29 + 219" by simp
  have e10: "max_str_digits = 146 * 29 + 66" by (simp add: max_str_digits_def)
  have "((2::int) ^ 485) ^ 29 < (10 ^ 146) ^ 29"
    by (rule power_strict_mono [OF a]) simp_all
  moreover have "(0::int) < (10 ^ 146) ^ 29" by (rule zero_less_power) (rule zero_less_power, simp)
  moreover have "(0::int) \<le> 2 ^ 219" by (rule zero_le_power) simp
  ultimately have "((2::int) ^ 485) ^ 29 * 2 ^ 219 < (10 ^ 146) ^ 29 * 10 ^ 66"
    using b by (intro mult_strict_mono)
  then show ?thesis
    by (simp only: e2 e10 power_add power_mult)
qed

lemma bin_digits_binary:
  "set cs \<subseteq> {CHR ''0'', CHR ''1''} \<Longrightarrow> 0 \<le> acc \<Longrightarrow>
     \<exists>n. bin_digits acc False cs = Some (n, []) \<and> 0 \<le> n \<and> n < (acc + 1) * 2 ^ length cs"
proof (induction cs arbitrary: acc)
  case Nil
  then show ?case by simp
next
  case (Cons c cs)
  then have c: "c = CHR ''0'' \<or> c = CHR ''1''" and cs: "set cs \<subseteq> {CHR ''0'', CHR ''1''}" by auto
  from c show ?case
  proof
    assume c0: "c = CHR ''0''"
    from Cons.IH [OF cs, of "2 * acc"] Cons.prems(2)
    obtain n where n: "bin_digits (2 * acc) False cs = Some (n, [])" "0 \<le> n"
      "n < (2 * acc + 1) * 2 ^ length cs" by auto
    have "(2 * acc + 1) * 2 ^ length cs \<le> (acc + 1) * 2 ^ length (c # cs)"
      by (simp add: algebra_simps)
    with n(3) have "n < (acc + 1) * 2 ^ length (c # cs)" by (rule order.strict_trans2)
    with n(1,2) c0 show ?thesis by simp
  next
    assume c1: "c = CHR ''1''"
    from Cons.IH [OF cs, of "2 * acc + 1"] Cons.prems(2)
    obtain n where n: "bin_digits (2 * acc + 1) False cs = Some (n, [])" "0 \<le> n"
      "n < (2 * acc + 1 + 1) * 2 ^ length cs" by auto
    have "(2 * acc + 1 + 1) * 2 ^ length cs \<le> (acc + 1) * 2 ^ length (c # cs)"
      by (simp add: algebra_simps)
    with n(3) have "n < (acc + 1) * 2 ^ length (c # cs)" by (rule order.strict_trans2)
    with n(1,2) c1 show ?thesis by simp
  qed
qed

lemma int_base2_binary:
  assumes "deck \<noteq> []" "set deck \<subseteq> {CHR ''0'', CHR ''1''}"
  shows "\<exists>n. int_base2 deck = Inr n \<and> 0 \<le> n \<and> n < 2 ^ length deck"
proof -
  from bin_digits_binary [OF assms(2), of 0]
  obtain n where n: "bin_digits 0 False deck = Some (n, [])" "0 \<le> n" "n < 2 ^ length deck"
    by auto
  obtain c cs where d: "deck = c # cs" using assms(1) by (cases deck) auto
  have c: "c = CHR ''0'' \<or> c = CHR ''1''" using assms(2) d by auto
  then have sp: "\<not> py_space c" by (auto simp: py_space_def)
  have "int_base2 deck = Inr n"
  proof (cases cs)
    case Nil
    then show ?thesis using c sp n d by (auto simp: int_base2_def)
  next
    case (Cons b cs')
    then have "b = CHR ''0'' \<or> b = CHR ''1''" using assms(2) d by auto
    then show ?thesis using c sp n d Cons by (auto simp: int_base2_def)
  qed
  then show ?thesis using n by blast
qed

lemma binary_deck_named:
  assumes "deck \<noteq> []" "set deck \<subseteq> {CHR ''0'', CHR ''1''}" "length deck \<le> 14284"
  shows "\<exists>n deck_name. int_base2 deck = Inr n \<and> py_str n = Inr deck_name"
proof -
  from int_base2_binary [OF assms(1,2)]
  obtain n where n: "int_base2 deck = Inr n" "0 \<le> n" "n < 2 ^ length deck" by blast
  have "(2::int) ^ length deck \<le> 2 ^ 14284"
    by (rule power_increasing [OF assms(3)]) simp
  then have "\<bar>n\<bar> < 10 ^ max_str_digits" using n pow2_below_limit by linarith
  then obtain deck_name where "py_str n = Inr deck_name" using py_str_returns_iff by blast
  with n show ?thesis by blast
qed

lemma frame_inv_full:
  assumes "frame_inv pick deck (set sequences \<times> set sequences) df"
  shows "full_frame (df\<lparr>index := rev sequences\<rparr>)"
proof -
  have c: "columns df = sequences"
    and v: "\<And>a b. a \<in> set sequences \<Longrightarrow> b \<in> set sequences \<Longrightarrow> cells df (a, b) \<noteq> None"
    using assms by (auto simp: frame_inv_def)
  have 1: "length (to_array (df\<lparr>index := rev sequences\<rparr>)) = 8"
    by (simp add: to_array_def sequences_def)
  have 2: "length row = 8 \<and> None \<notin> set row"
    if "row \<in> set (to_array (df\<lparr>index := rev sequences\<rparr>))" for row
  proof -
    from that obtain r where r: "r \<in> set sequences"
      and row: "row = map (\<lambda>c. cells df (r, c)) sequences"
      by (auto simp: to_array_def c)
    have "length row = 8" by (simp add: row sequences_def)
    moreover have "None \<notin> set row"
    proof
      assume "None \<in> set row"
      then obtain c where "c \<in> set sequences" "cells df (r, c) = None"
        by (auto simp: row)
      with v [OF r] show False by blast
    qed
    ultimately show ?thesis by simp
  qed
  have 3: "to_array (df\<lparr>index := rev sequences\<rparr>) ! i ! j
      = cells df (rev sequences ! i, sequences ! j)"
    if "i < 8" "j < 8" for i j
  proof -
    have "i < length (rev sequences)" "j < length sequences"
      using that by (simp_all add: sequences_def)
    then show ?thesis by (simp add: to_array_def c)
  qed
  show ?thesis
    unfolding full_frame_def using 1 2 3 by (simp add: c) (simp add: sequences_def)
qed

lemma reordered_full:
  "full_frame (p2_wins_cards (reordered deck))" "full_frame (p2_wins_tricks (reordered deck))"
  "full_frame (draws_cards (reordered deck))" "full_frame (draws_tricks (reordered deck))"
  using frames_inv_fill [of deck]
  by (auto simp: reordered_def frames_inv_def intro: frame_inv_full)

lemma reordered_cells:
  assumes "seq1 \<in> set sequences" "seq2 \<in> set sequences"
  shows "(case outcome deck seq1 seq2 of
           (cards_winner, cards_draw, tricks_winner, tricks_draw) \<Rightarrow>
             cells (p2_wins_cards (reordered deck)) (seq1, seq2) = Some cards_winner \<and>
             cells (draws_cards (reordered deck)) (seq1, seq2) = Some cards_draw \<and>
             cells (p2_wins_tricks (reordered deck)) (seq1, seq2) = Some tricks_winner \<and>
             cells (draws_tricks (reordered deck)) (seq1, seq2) = Some tricks_draw)"
  using frames_inv_fill [of deck] assms
  by (auto simp: reordered_def frames_inv_def frame_inv_def split: prod.splits)

text \<open>
  C8, as the claim states it, fails: for the empty deck line 125 computes \<open>int('', 2)\<close>,
  which raises \<open>ValueError\<close> in both modes, and no matrix is returned.
\<close>

theorem play_one_deck_empty_deck_counterexample:
  "play_one_deck (\<lambda>fs path arr. Inr (fs(path \<mapsto> arr))) [] ''data'' True Map.empty
     = Inl ValueError"
  by (simp add: play_one_deck_unfold int_base2_def)

text \<open>
  C8, amended. For every deck on which \<open>play_one_deck\<close> returns, it returns four
  matrices; each has exactly 8 rows and 8 columns labelled by the sequences \<open>000\<close> to
  \<open>111\<close>, with the rows in reversed order, so that \<open>111\<close> is row 0, and no cell is empty:
  for each of the 64 pairs \<open>(seq1, seq2)\<close> the cell in row \<open>seq1\<close> and column \<open>seq2\<close> holds
  the flag that \<open>calculate_winner\<close> computes from \<open>score_deck(deck, seq1, seq2)\<close>.

  \<open>play_one_deck\<close> returns exactly when \<open>int(deck, 2)\<close> gives a number, \<open>str\<close> of that
  number does not raise, which is when the number has at most 4300 decimal digits, and
  either \<open>batched\<close> is set or the four saves succeed. Every non-empty deck of at most
  14284 digits \<open>0\<close> and \<open>1\<close> has such a name.
\<close>

theorem play_one_deck_matrices:
  "(\<forall>res fs'. play_one_deck np_save deck data batched fs = Inr (res, fs') \<longrightarrow>
       full_frame (p2_wins_cards res) \<and> full_frame (p2_wins_tricks res) \<and>
       full_frame (draws_cards res) \<and> full_frame (draws_tricks res) \<and>
       (\<forall>seq1 \<in> set sequences. \<forall>seq2 \<in> set sequences.
          (case outcome deck seq1 seq2 of
             (cards_winner, cards_draw, tricks_winner, tricks_draw) \<Rightarrow>
               cells (p2_wins_cards res) (seq1, seq2) = Some cards_winner \<and>
               cells (draws_cards res) (seq1, seq2) = Some cards_draw \<and>
               cells (p2_wins_tricks res) (seq1, seq2) = Some tricks_winner \<and>
               cells (draws_tricks res) (seq1, seq2) = Some tricks_draw)))
   \<and> ((\<exists>res fs'. play_one_deck np_save deck data batched fs = Inr (res, fs')) \<longleftrightarrow>
        (\<exists>n deck_name. int_base2 deck = Inr n \<and> py_str n = Inr deck_name \<and>
           (batched \<or>
            (\<exists>fs'. save_results np_save fs data deck_name (reordered deck) = Inr fs'))))
   \<and> (\<forall>n. (\<exists>deck_name. py_str n = Inr deck_name) \<longleftrightarrow> \<bar>n\<bar> < 10 ^ max_str_digits)
   \<and> (deck \<noteq> [] \<and> set deck \<subseteq> {CHR ''0'', CHR ''1''} \<and> length deck \<le> 14284 \<longrightarrow>
        (\<exists>n deck_name. int_base2 deck = Inr n \<and> py_str n = Inr deck_name))"
proof (intro conjI allI impI)
  fix res fs'
  assume "play_one_deck np_save deck data batched fs = Inr (res, fs')"
  then have r: "res = reordered deck" by (rule play_one_deck_returns_reordered)
  show "full_frame (p2_wins_cards res)" "full_frame (p2_wins_tricks res)"
    "full_frame (draws_cards res)" "full_frame (draws_tricks res)"
    unfolding r by (rule reordered_full)+
  show "\<forall>seq1 \<in> set sequences. \<forall>seq2 \<in> set sequences.
          (case outcome deck seq1 seq2 of
             (cards_winner, cards_draw, tricks_winner, tricks_draw) \<Rightarrow>
               cells (p2_wins_cards res) (seq1, seq2) = Some cards_winner \<and>
               cells (draws_cards res) (seq1, seq2) = Some cards_draw \<and>
               cells (p2_wins_tricks res) (seq1, seq2) = Some tricks_winner \<and>
               cells (draws_tricks res) (seq1, seq2) = Some tricks_draw)"
    unfolding r by (intro ballI reordered_cells)
next
  show "(\<exists>res fs'. play_one_deck np_save deck data batched fs = Inr (res, fs')) \<longleftrightarrow>
        (\<exists>n deck_name. int_base2 deck = Inr n \<and> py_str n = Inr deck_name \<and>
           (batched \<or>
            (\<exists>fs'. save_results np_save fs data deck_name (reordered deck) = Inr fs')))"
    by (rule play_one_deck_returns_iff)
next
  fix n
  show "(\<exists>deck_name. py_str n = Inr deck_name) \<longleftrightarrow> \<bar>n\<bar> < 10 ^ max_str_digits"
    by (rule py_str_returns_iff)
next
  assume "deck \<noteq> [] \<and> set deck \<subseteq> {CHR ''0'', CHR ''1''} \<and> length deck \<le> 14284"
  then show "\<exists>n deck_name. int_base2 deck = Inr n \<and> py_str n = Inr deck_name"
    using binary_deck_named by blast
qed

lemma outcome_alternating: "outcome ''0101010101'' ''010'' ''101'' = (0, 0, 0, 0)"
  by (simp add: outcome_def calculate_winner_def score_deck_def outputs_def score_loop.simps
      scan_cond_def scan_body_def scan_init_def Let_def)

text \<open>
  The amended C8 at the alternating deck, saved to a file system that accepts every
  write: the matrices are returned, row 0 of the card wins is the row of \<open>111\<close>, and the
  cell of the pair \<open>(010, 101)\<close> holds 0, because player 1 wins that game by cards.
\<close>

theorem play_one_deck_matrices_witness:
  "''0101010101'' \<noteq> [] \<and> set ''0101010101'' \<subseteq> {CHR ''0'', CHR ''1''} \<and>
   length ''0101010101'' \<le> 14284 \<and>
   ''010'' \<in> set sequences \<and> ''101'' \<in> set sequences \<and>
   (\<exists>res fs'.
      play_one_deck (\<lambda>fs path arr. Inr (fs(path \<mapsto> arr))) ''0101010101'' ''data'' False Map.empty
        = Inr (res, fs') \<and>
      hd (index (p2_wins_cards res)) = ''111'' \<and>
      cells (p2_wins_cards res) (''010'', ''101'') = Some 0)"
proof -
  let ?save = "\<lambda>fs path arr. Inr (fs(path \<mapsto> arr)) :: py_error + (string \<rightharpoonup> int option list list)"
  note inst = play_one_deck_matrices [of ?save "''0101010101''" "''data''" False Map.empty]
  have h: "''0101010101'' \<noteq> [] \<and> set ''0101010101'' \<subseteq> {CHR ''0'', CHR ''1''} \<and>
      length ''0101010101'' \<le> 14284" by simp
  have m: "''010'' \<in> set sequences" "''101'' \<in> set sequences"
    by (simp_all add: sequences_def)
  from inst [THEN conjunct2, THEN conjunct2, THEN conjunct2, rule_format, OF h]
  obtain n deck_name where
    n: "int_base2 ''0101010101'' = Inr n \<and> py_str n = Inr deck_name" by blast
  have s: "\<exists>fs'. save_results ?save Map.empty ''data'' deck_name (reordered ''0101010101'') = Inr fs'"
    by (simp add: save_results_def)
  from inst [THEN conjunct2, THEN conjunct1] n s obtain res fs' where
    r: "play_one_deck ?save ''0101010101'' ''data'' False Map.empty = Inr (res, fs')"
    by blast
  note a = inst [THEN conjunct1, rule_format, OF r]
  note f = a [THEN conjunct1]
  note c = a [THEN conjunct2, THEN conjunct2, THEN conjunct2, THEN conjunct2]
  have "case outcome ''0101010101'' ''010'' ''101'' of
           (cards_winner, cards_draw, tricks_winner, tricks_draw) \<Rightarrow>
             cells (p2_wins_cards res) (''010'', ''101'') = Some cards_winner \<and>
             cells (draws_cards res) (''010'', ''101'') = Some cards_draw \<and>
             cells (p2_wins_tricks res) (''010'', ''101'') = Some tricks_winner \<and>
             cells (draws_tricks res) (''010'', ''101'') = Some tricks_draw"
    by (rule bspec [OF bspec [OF c m(1)] m(2)])
  then have "cells (p2_wins_cards res) (''010'', ''101'') = Some 0"
    by (simp add: outcome_alternating)
  moreover have "hd (index (p2_wins_cards res)) = ''111''"
    using f by (simp add: full_frame_def)
  ultimately show ?thesis using h m r by blast
qed

end
